theory Spec2Isabelle
  imports Main "HOL-Library.Signed_Division" "HOL-Library.Word"
begin

section \<open>The leader-election client (package leader)\<close>

text \<open>
  The client runs goroutines against an etcd keys API, a clock and a close channel.
  The embedding makes every effect of a goroutine explicit: each call that leaves the
  goroutine (an API call, a log line, a sleep, a channel send) is an \<open>action\<close> appended
  to the run's trace, and each answer of the outside world (the result of an API call,
  the branch a \<open>select\<close> takes) is read from a script. A script that runs out
  stands for a call that has not returned: the run is then \<open>Blocks\<close>.
\<close>

subsection \<open>Data\<close>

text \<open>\<open>time.Duration\<close> and instants: nanoseconds (int64 in Go).\<close>

type_synonym Duration = int

definition Millisecond :: Duration where
  "Millisecond = 1000000"

definition Second :: Duration where
  "Second = 1000000000"

text \<open>
  \<open>time.Time.Sub\<close>: the difference of two instants, saturated at the least and the
  greatest \<open>Duration\<close>.
\<close>

definition time_Sub :: "int \<Rightarrow> int \<Rightarrow> Duration" where
  "time_Sub t u = max (- (2 ^ 63)) (min (2 ^ 63 - 1) (t - u))"

text \<open>
  The error values the code tells apart: \<open>context.Canceled\<close>, a
  \<open>*client.ClusterError\<close> with its \<open>Errors\<close>, a \<open>client.Error\<close> with its \<open>Code\<close>,
  the error of \<open>trace.Wrap\<close>/\<open>trace.Errorf\<close> around another one, and any other error.
\<close>

datatype err =
    ContextCanceled
  | ClusterError "err list"
  | ClientError nat
  | TraceErr err
  | OtherError string

definition ErrorCodeKeyNotFound :: nat where
  "ErrorCodeKeyNotFound = 100"

definition ErrorCodeNodeExist :: nat where
  "ErrorCodeNodeExist = 105"

definition ErrorCodeEventIndexCleared :: nat where
  "ErrorCodeEventIndexCleared = 401"

text \<open>
  \<open>client.Node\<close> (the fields read by the code) and \<open>client.Response\<close>.
  \<open>Expiration\<close> is a \<open>*time.Time\<close>: \<open>None\<close> is the nil pointer of a node without TTL.
\<close>

record Node =
  Value :: string
  ModifiedIndex :: nat
  Expiration :: "int option"

record Response =
  Node :: Node

datatype PrevExistType = PrevIgnore | PrevExist | PrevNoExist

text \<open>\<open>client.SetOptions\<close>; the fields the code leaves out hold Go's zero values.\<close>

record SetOptions =
  PrevValue :: string
  PrevIndex :: nat
  PrevExist :: PrevExistType
  TTL :: Duration

datatype action =
    ApiGet string
  | ApiSet string string SetOptions
  | ApiWatcher string nat
  | WatcherNext nat
  | NewTicker Duration
  | Sleep Duration
  | Log string
  | Send string

text \<open>How a run ends: the function returns, waits on a call forever, or panics.\<close>

datatype 'a outcome = Returns 'a | Blocks | Panics

fun IsNotFound :: "err \<Rightarrow> bool" where
  "IsNotFound (ClientError c) = (c = ErrorCodeKeyNotFound)"
| "IsNotFound _ = False"

fun IsAlreadyExist :: "err \<Rightarrow> bool" where
  "IsAlreadyExist (ClientError c) = (c = ErrorCodeNodeExist)"
| "IsAlreadyExist _ = False"

subsection \<open>The voter\<close>

text \<open>
  One campaign iteration. \<open>now\<close> is \<open>l.clock.UtcNow()\<close>, \<open>getR\<close> the answer of the
  store to \<open>api.Get\<close> and \<open>setR\<close> its answer to the \<open>api.Set\<close> the iteration issues,
  if it issues one. \<open>term / 2\<close> is Go's division, truncating towards zero.
  \<open>resp.Node.Expiration.Sub\<close> dereferences \<open>Expiration\<close>: on nil the goroutine panics.
\<close>

definition elect ::
  "int \<Rightarrow> err + Response \<Rightarrow> err + Response \<Rightarrow> string \<Rightarrow> string \<Rightarrow> Duration
    \<Rightarrow> err option outcome \<times> action list" where
  "elect now getR setR key value term =
    (case getR of
       Inl e \<Rightarrow>
         if \<not> IsNotFound e then (Returns (Some (TraceErr e)), [Log ''start'', ApiGet key])
         else
           (let opts = \<lparr>PrevValue = '''', PrevIndex = 0, PrevExist = PrevNoExist, TTL = term\<rparr>;
                tr = [Log ''start'', ApiGet key, Log ''key not found, try to elect myself'',
                      ApiSet key value opts]
            in case setR of
                 Inl e' \<Rightarrow> (Returns (Some (TraceErr e')), tr)
               | Inr _ \<Rightarrow> (Returns None, tr @ [Log ''successfully elected'']))
     | Inr resp \<Rightarrow>
         if Value (Node resp) \<noteq> value
         then (Returns None, [Log ''start'', ApiGet key, Log ''leader: is, try next time''])
         else
           (case Expiration (Node resp) of
              None \<Rightarrow> (Panics, [Log ''start'', ApiGet key])
            | Some expiration \<Rightarrow>
                if time_Sub expiration now > term sdiv 2
                then (Returns None, [Log ''start'', ApiGet key])
                else
                  (let opts = \<lparr>PrevValue = value, PrevIndex = ModifiedIndex (Node resp),
                              PrevExist = PrevIgnore, TTL = term\<rparr>;
                       tr = [Log ''start'', ApiGet key, ApiSet key value opts]
                   in case setR of
                        Inl e' \<Rightarrow> (Returns (Some (TraceErr e')), tr)
                      | Inr _ \<Rightarrow> (Returns None, tr @ [Log ''extended lease'']))))"

text \<open>The store writes of a trace: its \<open>api.Set\<close> calls.\<close>

fun is_write :: "action \<Rightarrow> bool" where
  "is_write (ApiSet _ _ _) = True"
| "is_write _ = False"

definition writes :: "action list \<Rightarrow> action list" where
  "writes tr = filter is_write tr"

text \<open>
  What the voter goroutine meets in its \<open>select\<close>: a tick of the ticker, with the clock
  and the store's answers for the iteration that follows, or the closed \<open>closeC\<close>.
\<close>

datatype voter_event = VTick int "err + Response" "err + Response" | VClose

fun voter_log :: "err option \<Rightarrow> action list" where
  "voter_log None = []"
| "voter_log (Some e) = [Log ''voter error'']"

fun voter_loop :: "string \<Rightarrow> string \<Rightarrow> Duration \<Rightarrow> voter_event list \<Rightarrow> unit outcome \<times> action list" where
  "voter_loop key value term [] = (Blocks, [])"
| "voter_loop key value term (VClose # evs) = (Returns (), [Log ''client is closing, return''])"
| "voter_loop key value term (VTick now getR setR # evs) =
    (case elect now getR setR key value term of
       (Returns e, tr) \<Rightarrow>
         (let (out, tr') = voter_loop key value term evs in (out, tr @ voter_log e @ tr'))
     | (Blocks, tr) \<Rightarrow> (Blocks, tr)
     | (Panics, tr) \<Rightarrow> (Panics, tr))"

text \<open>
  The goroutine of \<open>AddVoter\<close>: a first iteration, then one on every tick.
  \<open>time.NewTicker\<close> panics on a period that is not positive.
\<close>

definition voter ::
  "string \<Rightarrow> string \<Rightarrow> Duration \<Rightarrow> int \<Rightarrow> err + Response \<Rightarrow> err + Response \<Rightarrow> voter_event list
    \<Rightarrow> unit outcome \<times> action list" where
  "voter key value term now getR setR evs =
    (case elect now getR setR key value term of
       (Returns e, tr) \<Rightarrow>
         if term sdiv 5 \<le> 0 then (Panics, tr @ voter_log e)
         else
           (let (out, tr') = voter_loop key value term evs
            in (out, tr @ voter_log e @ NewTicker (term sdiv 5) # tr'))
     | (Blocks, tr) \<Rightarrow> (Blocks, tr)
     | (Panics, tr) \<Rightarrow> (Panics, tr))"

text \<open>
  \<open>AddVoter\<close> checks its arguments and starts the goroutine. The result is the error
  returned to the caller and the goroutine started, if any: \<open>voter key value term\<close>
  run against the world.
\<close>

datatype goroutine = VoterTask string string Duration

definition AddVoter :: "string \<Rightarrow> string \<Rightarrow> Duration \<Rightarrow> err option \<times> goroutine option" where
  "AddVoter key value term =
    (if value = '''' then (Some (TraceErr (OtherError ''voter value for key can not be empty'')), None)
     else if term < Second then (Some (TraceErr (OtherError ''term can not be < 1second'')), None)
     else (None, Some (VoterTask key value term)))"

text \<open>A started goroutine, run against the world.\<close>

fun run_goroutine ::
  "goroutine \<Rightarrow> int \<Rightarrow> err + Response \<Rightarrow> err + Response \<Rightarrow> voter_event list
    \<Rightarrow> unit outcome \<times> action list" where
  "run_goroutine (VoterTask key value term) now getR setR evs =
     voter key value term now getR setR evs"

subsection \<open>Backoff\<close>

text \<open>
  Modelled from the spec: \<open>utils.Backoff\<close> (package lib/utils), whose source is not
  part of the files at hand. The spec: it "produces successive delays
  \<open>d_1, d_2, \<dots>\<close> bounded by \<open>[Initial, Max]\<close>, doubling on each call, with a \<open>Reset\<close>
  that returns the counter to zero and a \<open>Tries\<close> counter exposed for callers".
  So \<open>Delay\<close> counts one more try and returns \<open>Initial\<close> doubled once per earlier try,
  capped at \<open>Max\<close>.
\<close>

record Backoff =
  Initial :: Duration
  Max :: Duration
  Tries :: nat

definition Reset :: "Backoff \<Rightarrow> Backoff" where
  "Reset b = b\<lparr>Tries := 0\<rparr>"

definition Delay :: "Backoff \<Rightarrow> Duration \<times> Backoff" where
  "Delay b = (min (Max b) (Initial b * 2 ^ Tries b), b\<lparr>Tries := Tries b + 1\<rparr>)"

subsection \<open>The first-value probe\<close>

text \<open>
  The branch taken by the \<open>select\<close> of \<open>getFirstValue\<close>: the ticker or \<open>closeC\<close>.
  When both are ready Go picks either, so the branch is the world's choice.
\<close>

datatype probe_select = Tick | ProbeClose

type_synonym probe_result =
  "(Response option \<times> err option) outcome \<times> (err + Response) list \<times> probe_select list \<times> action list"

text \<open>
  The loop of \<open>getFirstValue\<close>, over the answers of \<open>api.Get\<close> still to come and the
  branches of the \<open>select\<close> still to come; it returns what is left of both.
\<close>

definition probe_log :: "err \<Rightarrow> action list" where
  "probe_log e = (if \<not> IsNotFound e then [Log ''unexpected watcher error''] else [])"

fun getFirstValue_loop :: "string \<Rightarrow> (err + Response) list \<Rightarrow> probe_select list \<Rightarrow> probe_result" where
  "getFirstValue_loop key [] ss = (Blocks, [], ss, [ApiGet key])"
| "getFirstValue_loop key (Inr re # gs) ss = (Returns (Some re, None), gs, ss, [ApiGet key])"
| "getFirstValue_loop key (Inl e # gs) [] = (Blocks, gs, [], ApiGet key # probe_log e)"
| "getFirstValue_loop key (Inl e # gs) (Tick # ss) =
    (case getFirstValue_loop key gs ss of
       (out, gs', ss', tr) \<Rightarrow> (out, gs', ss', ApiGet key # probe_log e @ tr))"
| "getFirstValue_loop key (Inl e # gs) (ProbeClose # ss) =
    (Returns (None, None), gs, ss,
     ApiGet key # probe_log e @ [Log ''watcher got client close signal''])"

text \<open>\<open>time.NewTicker\<close> panics on a period that is not positive.\<close>

definition getFirstValue ::
  "string \<Rightarrow> Duration \<Rightarrow> (err + Response) list \<Rightarrow> probe_select list \<Rightarrow> probe_result" where
  "getFirstValue key retryPeriod gs ss =
    (if retryPeriod \<le> 0 then (Panics, gs, ss, [])
     else case getFirstValue_loop key gs ss of
            (out, gs', ss', tr) \<Rightarrow> (out, gs', ss', NewTicker retryPeriod # tr))"

subsection \<open>The watcher\<close>

text \<open>
  The variables of the goroutine of \<open>AddWatch\<close>. \<open>watcher\<close> holds the \<open>AfterIndex\<close> the
  current watcher was made with; \<open>None\<close> is the nil interface it starts as.
\<close>

record watch_state =
  watcher :: "nat option"
  re :: "Response option"
  err :: "err option"
  backoff :: Backoff

text \<open>The branch taken by the \<open>select\<close> that sends on \<open>valuesC\<close>.\<close>

datatype send_select = Sent | SendClose

text \<open>The world of a watcher, apart from the answers of \<open>watcher.Next\<close>.\<close>

record world =
  gets :: "(err + Response) list"
  selects :: "probe_select list"
  sends :: "send_select list"

definition resetWatch ::
  "string \<Rightarrow> Duration \<Rightarrow> watch_state \<Rightarrow> world
    \<Rightarrow> err option outcome \<times> watch_state \<times> world \<times> action list" where
  "resetWatch key retry st w =
    (case getFirstValue key retry (gets w) (selects w) of
       (Returns (re', err'), gs, ss, tr) \<Rightarrow>
         (let st' = st\<lparr>re := re', err := err'\<rparr>; w' = w\<lparr>gets := gs, selects := ss\<rparr>
          in case err' of
               Some e \<Rightarrow> (Returns err', st', w', tr @ [Log ''unexpected error, returning''])
             | None \<Rightarrow>
                 (case re' of
                    None \<Rightarrow> (Returns err', st', w', tr @ [Log ''client is closing, return''])
                  | Some r \<Rightarrow>
                      (Returns None, st'\<lparr>watcher := Some (ModifiedIndex (Node r))\<rparr>, w',
                       tr @ [Log ''got current value'', ApiWatcher key (ModifiedIndex (Node r)),
                             Log ''reset watch''])))
     | (Blocks, gs, ss, tr) \<Rightarrow> (Blocks, st, w\<lparr>gets := gs, selects := ss\<rparr>, tr)
     | (Panics, gs, ss, tr) \<Rightarrow> (Panics, st, w\<lparr>gets := gs, selects := ss\<rparr>, tr))"

text \<open>What one turn of the loop leads to: the next turn, or the end of the goroutine.\<close>

datatype step = Continue watch_state world | Stop "unit outcome"

text \<open>
  The \<open>select\<close> at the end of the loop body. Its send operand \<open>re.Node.Value\<close> is
  evaluated on entry: a nil \<open>re\<close> panics.
\<close>

definition emit :: "watch_state \<Rightarrow> world \<Rightarrow> action list \<Rightarrow> step \<times> action list" where
  "emit st w tr =
    (case re st of
       None \<Rightarrow> (Stop Panics, tr)
     | Some r \<Rightarrow>
         (case sends w of
            [] \<Rightarrow> (Stop Blocks, tr)
          | Sent # ss \<Rightarrow> (Continue st (w\<lparr>sends := ss\<rparr>), tr @ [Send (Value (Node r))])
          | SendClose # ss \<Rightarrow> (Stop (Returns ()), tr)))"

text \<open>The last branch of the error handling: an error of no known kind.\<close>

definition unknown_error ::
  "string \<Rightarrow> Duration \<Rightarrow> watch_state \<Rightarrow> world \<Rightarrow> action list \<Rightarrow> step \<times> action list" where
  "unknown_error key retry st w tr =
    (if Tries (backoff st) > 10
     then (case resetWatch key retry st w of
             (Returns _, st', w', tr') \<Rightarrow> (Continue st' w', tr @ Log ''unexpected watch error'' # tr')
           | (Blocks, _, _, tr') \<Rightarrow> (Stop Blocks, tr @ Log ''unexpected watch error'' # tr')
           | (Panics, _, _, tr') \<Rightarrow> (Stop Panics, tr @ Log ''unexpected watch error'' # tr'))
     else (Continue st w, tr @ [Log ''unexpected watch error'']))"

text \<open>
  The loop body of \<open>AddWatch\<close>, from the answer \<open>n\<close> of \<open>watcher.Next\<close> on. With an
  error \<open>watcher.Next\<close> returns a nil response. The goroutine that cancels \<open>ctx\<close> when
  \<open>closeC\<close> is closed belongs to the world: it is why \<open>watcher.Next\<close> answers
  \<open>context.Canceled\<close> after a close.
\<close>

definition iteration ::
  "string \<Rightarrow> Duration \<Rightarrow> watch_state \<Rightarrow> world \<Rightarrow> err + Response \<Rightarrow> step \<times> action list" where
  "iteration key retry st w n =
    (case n of
       Inr r \<Rightarrow>
         (let st1 = st\<lparr>re := Some r, err := None\<rparr>
          in if Value (Node r) = '''' then (Continue st1 w, [Log ''skipping empty value''])
             else emit (st1\<lparr>backoff := Reset (backoff st1)\<rparr>) w [Log ''got''])
     | Inl e \<Rightarrow>
         (let st1 = st\<lparr>re := None, err := Some e\<rparr>;
              (duration, b) = Delay (backoff st1);
              st2 = st1\<lparr>backoff := b\<rparr>;
              tr = (if Tries b > 1 then [Log ''backing off'', Sleep duration] else [])
          in case e of
               ContextCanceled \<Rightarrow> (Stop (Returns ()), tr @ [Log ''client is closing, return''])
             | ClusterError errs \<Rightarrow>
                 (if (case errs of [] \<Rightarrow> False | e0 # _ \<Rightarrow> e0 = ContextCanceled)
                  then (Stop (Returns ()), tr @ [Log ''client is closing, return''])
                  else (Continue st2 w, tr @ [Log ''unexpected cluster error'']))
             | ClientError c \<Rightarrow>
                 (if c = ErrorCodeEventIndexCleared
                  then (case resetWatch key retry st2 w of
                          (Returns err', st3, w3, tr') \<Rightarrow>
                            (let st4 = st3\<lparr>err := err'\<rparr>;
                                 tr4 = tr @ Log ''watch index error, resetting watch index'' # tr'
                             in if err' \<noteq> None then (Continue st4 w3, tr4) else emit st4 w3 tr4)
                        | (Blocks, _, _, tr') \<Rightarrow>
                            (Stop Blocks, tr @ Log ''watch index error, resetting watch index'' # tr')
                        | (Panics, _, _, tr') \<Rightarrow>
                            (Stop Panics, tr @ Log ''watch index error, resetting watch index'' # tr'))
                  else unknown_error key retry st2 w tr)
             | TraceErr _ \<Rightarrow> unknown_error key retry st2 w tr
             | OtherError _ \<Rightarrow> unknown_error key retry st2 w tr))"

text \<open>
  The loop, over the answers of \<open>watcher.Next\<close> still to come. Calling \<open>Next\<close> on the
  nil watcher panics.
\<close>

fun AddWatch_loop ::
  "string \<Rightarrow> Duration \<Rightarrow> watch_state \<Rightarrow> world \<Rightarrow> (err + Response) list \<Rightarrow> unit outcome \<times> action list" where
  "AddWatch_loop key retry st w [] =
    (case watcher st of None \<Rightarrow> (Panics, []) | Some i \<Rightarrow> (Blocks, [WatcherNext i]))"
| "AddWatch_loop key retry st w (n # ns) =
    (case watcher st of
       None \<Rightarrow> (Panics, [])
     | Some i \<Rightarrow>
         (case iteration key retry st w n of
            (Stop out, tr) \<Rightarrow> (out, WatcherNext i # tr)
          | (Continue st' w', tr) \<Rightarrow>
              (case AddWatch_loop key retry st' w' ns of
                 (out, tr') \<Rightarrow> (out, WatcherNext i # tr @ tr'))))"

text \<open>The goroutine started by \<open>AddWatch key retry valuesC\<close>.\<close>

definition AddWatch ::
  "string \<Rightarrow> Duration \<Rightarrow> world \<Rightarrow> (err + Response) list \<Rightarrow> unit outcome \<times> action list" where
  "AddWatch key retry w nexts =
    (let st0 = \<lparr>watcher = None, re = None, err = None,
                backoff = \<lparr>Initial = 50 * Millisecond, Max = 10 * Second, Tries = 0\<rparr>\<rparr>
     in case resetWatch key retry st0 w of
          (Returns (Some e), st, w', tr) \<Rightarrow> (Returns (), tr)
        | (Returns None, st, w', tr) \<Rightarrow>
            (case AddWatch_loop key retry st w' nexts of (out, tr') \<Rightarrow> (out, tr @ tr'))
        | (Blocks, st, w', tr) \<Rightarrow> (Blocks, tr)
        | (Panics, st, w', tr) \<Rightarrow> (Panics, tr))"

text \<open>The values a run has sent on \<open>valuesC\<close>, in order.\<close>

fun emitted :: "action list \<Rightarrow> string list" where
  "emitted [] = []"
| "emitted (Send v # tr) = v # emitted tr"
| "emitted (_ # tr) = emitted tr"

subsection \<open>The session\<close>

text \<open>A channel that is only ever closed: \<open>closeC\<close>. Closing a closed channel panics.\<close>

datatype chan = ChanOpen | ChanClosed

definition close_chan :: "chan \<Rightarrow> chan outcome" where
  "close_chan c = (case c of ChanOpen \<Rightarrow> Returns ChanClosed | ChanClosed \<Rightarrow> Panics)"

text \<open>The fields of \<open>Client\<close> that \<open>Close\<close> touches; \<open>closed\<close> is a uint32.\<close>

record Client =
  closeC :: chan
  closed :: "32 word"

text \<open>The two fields as \<open>NewClient\<close> leaves them on success.\<close>

definition NewClient :: Client where
  "NewClient = \<lparr>closeC = ChanOpen, closed = 0\<rparr>"

text \<open>\<open>atomic.CompareAndSwapUint32\<close>: whether it swapped, and the value then stored.\<close>

definition CompareAndSwapUint32 :: "32 word \<Rightarrow> 32 word \<Rightarrow> 32 word \<Rightarrow> bool \<times> 32 word" where
  "CompareAndSwapUint32 v old new = (if v = old then (True, new) else (False, v))"

definition Close :: "Client \<Rightarrow> (err option \<times> Client) outcome" where
  "Close l =
    (case CompareAndSwapUint32 (closed l) 0 1 of
       (False, v) \<Rightarrow> Returns (None, l\<lparr>closed := v\<rparr>)
     | (True, v) \<Rightarrow>
         (case close_chan (closeC l) of
            Returns c \<Rightarrow> Returns (None, l\<lparr>closed := v, closeC := c\<rparr>)
          | Blocks \<Rightarrow> Blocks
          | Panics \<Rightarrow> Panics))"

text \<open>
  Concurrent calls of \<open>Close\<close> on one \<open>Client\<close>. A call is two atomic steps, the
  compare-and-swap and the \<open>close\<close> of the channel, and the calls interleave in any
  order: a schedule names, step by step, the call that moves. \<open>closings\<close> counts the
  \<open>close\<close> operations carried out on the channel.
\<close>

datatype close_call = AtCas | AtClose | Returned "err option"

record system =
  client :: Client
  calls :: "close_call list"
  closings :: nat
  panicked :: bool

definition step_call :: "nat \<Rightarrow> system \<Rightarrow> system" where
  "step_call i s =
    (if panicked s \<or> length (calls s) \<le> i then s
     else case calls s ! i of
            AtCas \<Rightarrow>
              (case CompareAndSwapUint32 (closed (client s)) 0 1 of
                 (False, v) \<Rightarrow>
                   s\<lparr>client := (client s)\<lparr>closed := v\<rparr>, calls := (calls s)[i := Returned None]\<rparr>
               | (True, v) \<Rightarrow>
                   s\<lparr>client := (client s)\<lparr>closed := v\<rparr>, calls := (calls s)[i := AtClose]\<rparr>)
          | AtClose \<Rightarrow>
              (case close_chan (closeC (client s)) of
                 Returns c \<Rightarrow>
                   s\<lparr>client := (client s)\<lparr>closeC := c\<rparr>, calls := (calls s)[i := Returned None],
                     closings := closings s + 1\<rparr>
               | Blocks \<Rightarrow> s
               | Panics \<Rightarrow> s\<lparr>panicked := True\<rparr>)
          | Returned r \<Rightarrow> s)"

fun run :: "nat list \<Rightarrow> system \<Rightarrow> system" where
  "run [] s = s"
| "run (i # sched) s = run sched (step_call i s)"

text \<open>\<open>n\<close> calls of \<open>Close\<close>, none of which has moved yet, on a fresh client.\<close>

definition start :: "nat \<Rightarrow> system" where
  "start n = \<lparr>client = NewClient, calls = replicate n AtCas, closings = 0, panicked = False\<rparr>"

subsection \<open>Auxiliary definitions for the proofs\<close>

text \<open>
  The trace of the probe's failed reads: one \<open>api.Get\<close> per error, followed by a log
  line unless the error is not-found.
\<close>

fun probe_retries :: "string \<Rightarrow> err list \<Rightarrow> action list" where
  "probe_retries key [] = []"
| "probe_retries key (e # es) = ApiGet key # probe_log e @ probe_retries key es"

text \<open>
  The invariant of concurrent \<open>Close\<close> calls: while \<open>closed\<close> is 0 no call has moved
  and the channel is open; once it is 1, exactly one call has won the swap, and it
  either still stands before its \<open>close\<close> or has carried it out.
\<close>

definition close_inv :: "system \<Rightarrow> bool" where
  "close_inv s =
    (\<not> panicked s \<and>
     (\<forall>c \<in> set (calls s). c = AtCas \<or> c = AtClose \<or> c = Returned None) \<and>
     (closed (client s) = 0 \<or> closed (client s) = 1) \<and>
     (closed (client s) = 0 \<longrightarrow>
        closeC (client s) = ChanOpen \<and> closings s = 0 \<and> (\<forall>c \<in> set (calls s). c = AtCas)) \<and>
     (closed (client s) = 1 \<longrightarrow>
        count_list (calls s) AtClose + closings s = 1 \<and>
        (closeC (client s) = ChanClosed) = (closings s = 1)))"

text \<open>How far a call of \<open>Close\<close> has come.\<close>

fun rank :: "close_call \<Rightarrow> nat" where
  "rank AtCas = 0"
| "rank AtClose = 1"
| "rank (Returned r) = 2"






section \<open>Properties\<close>

subsection \<open>AddVoter\<close>

text \<open>
  C6: \<open>AddVoter key value term\<close> returns an error exactly when \<open>value\<close> is the empty
  string or \<open>term\<close> is less than one second; otherwise it returns nil and starts the
  voter. The store is no argument of the synchronous part.
\<close>

theorem AddVoter_error_iff:
  "(fst (AddVoter key value term) \<noteq> None) = (value = '''' \<or> term < Second) \<and>
   (fst (AddVoter key value term) = None) =
     (snd (AddVoter key value term) = Some (VoterTask key value term))"
  by (simp add: AddVoter_def)

subsection \<open>The campaign iteration\<close>

text \<open>
  C7: when the key holds the voter's own value and the time left until \<open>Expiration\<close>
  is more than \<open>term / 2\<close>, the iteration reads the key and returns nil: its trace
  holds no \<open>api.Set\<close>.
\<close>

theorem elect_fresh_lease_no_write:
  assumes "getR = Inr resp" and "Value (Node resp) = value"
    and "Expiration (Node resp) = Some expiration"
    and "time_Sub expiration now > term sdiv 2"
  shows "elect now getR setR key value term = (Returns None, [Log ''start'', ApiGet key]) \<and>
         writes (snd (elect now getR setR key value term)) = []"
  using assms by (simp add: elect_def writes_def)

theorem elect_fresh_lease_no_write_witness:
  "Value (Node \<lparr>Node = \<lparr>Value = ''A'', ModifiedIndex = 5, Expiration = Some (4 * Second)\<rparr>\<rparr>) = ''A'' \<and>
   time_Sub (4 * Second) Second > (5 * Second) sdiv 2 \<and>
   elect Second (Inr \<lparr>Node = \<lparr>Value = ''A'', ModifiedIndex = 5, Expiration = Some (4 * Second)\<rparr>\<rparr>)
       (Inl (OtherError ''unused'')) ''k'' ''A'' (5 * Second) =
     (Returns None, [Log ''start'', ApiGet ''k''])"
proof -
  have v: "Value (Node \<lparr>Node = \<lparr>Value = ''A'', ModifiedIndex = 5, Expiration = Some (4 * Second)\<rparr>\<rparr>) = ''A''"
    by simp
  have x: "Expiration (Node \<lparr>Node = \<lparr>Value = ''A'', ModifiedIndex = 5, Expiration = Some (4 * Second)\<rparr>\<rparr>)
      = Some (4 * Second)"
    by simp
  have t: "time_Sub (4 * Second) Second > (5 * Second) sdiv 2"
    by (simp add: time_Sub_def Second_def signed_divide_int_def)
  from elect_fresh_lease_no_write[OF refl v x t] v t show ?thesis by simp
qed

lemma elect_write_shape:
  "a \<in> set (writes (snd (elect now getR setR key value term))) \<Longrightarrow>
     \<exists>opts. a = ApiSet key value opts \<and> TTL opts = term \<and>
       (PrevExist opts = PrevNoExist \<or> PrevValue opts = value)"
  by (auto simp add: elect_def writes_def Let_def split: sum.splits option.splits if_splits)

lemma voter_log_no_write: "a \<in> set (writes (voter_log e)) \<Longrightarrow> False"
  by (cases e) (simp_all add: writes_def)

lemma voter_loop_write_shape:
  "a \<in> set (writes (snd (voter_loop key value term evs))) \<Longrightarrow>
     \<exists>opts. a = ApiSet key value opts \<and> TTL opts = term \<and>
       (PrevExist opts = PrevNoExist \<or> PrevValue opts = value)"
proof (induction key "value" "term" evs rule: voter_loop.induct)
  case (1 key "value" "term")
  then show ?case by (simp add: writes_def)
next
  case (2 key "value" "term" evs)
  then show ?case by (simp add: writes_def)
next
  case (3 key "value" "term" now getR setR evs)
  obtain out tr where el: "elect now getR setR key value term = (out, tr)"
    by (cases "elect now getR setR key value term")
  have tr: "a \<in> set (writes tr) \<Longrightarrow> ?case"
    using elect_write_shape[of a now getR setR key "value" "term"] el by simp
  show ?case
  proof (cases out)
    case (Returns e)
    obtain out' tr' where vlp: "voter_loop key value term evs = (out', tr')"
      by (cases "voter_loop key value term evs")
    with 3(2) el Returns
    have "a \<in> set (writes tr) \<or> a \<in> set (writes (voter_log e)) \<or> a \<in> set (writes tr')"
      by (auto simp add: writes_def)
    then show ?thesis
      using tr voter_log_no_write[of a e] 3(1)[OF el[symmetric] Returns] vlp by auto
  next
    case Blocks
    with 3(2) el tr show ?thesis by simp
  next
    case Panics
    with 3(2) el tr show ?thesis by simp
  qed
qed

lemma voter_write_shape:
  assumes a: "a \<in> set (writes (snd (voter key value term now getR setR evs)))"
  shows "\<exists>opts. a = ApiSet key value opts \<and> TTL opts = term \<and>
       (PrevExist opts = PrevNoExist \<or> PrevValue opts = value)"
proof -
  obtain out tr where el: "elect now getR setR key value term = (out, tr)"
    by (cases "elect now getR setR key value term")
  obtain out' tr' where vlp: "voter_loop key value term evs = (out', tr')"
    by (cases "voter_loop key value term evs")
  from a el vlp have "a \<in> set (writes tr) \<or> a \<in> set (writes tr')"
    using voter_log_no_write[of a]
    by (auto simp add: voter_def writes_def split: outcome.splits if_splits)
  then show ?thesis
    using elect_write_shape[of a now getR setR key "value" "term"] el
      voter_loop_write_shape[of a key "value" "term" evs] vlp by auto
qed

text \<open>
  C2: an iteration that reads a value other than the voter's own issues no \<open>api.Set\<close>.
  Every \<open>api.Set\<close> of an iteration is either the create of an absent key
  (\<open>PrevExist = PrevNoExist\<close>, after a not-found read) or the renewal conditioned on
  \<open>PrevValue\<close> being the voter's value and \<open>PrevIndex\<close> the \<open>ModifiedIndex\<close> just read.
  And every \<open>api.Set\<close> of the whole voter goroutine carries one of the two conditions,
  so a store that honours them leaves a lease with another value alone.
\<close>

theorem voter_writes_conditioned:
  "(\<forall>resp. getR = Inr resp \<and> Value (Node resp) \<noteq> value \<longrightarrow>
      writes (snd (elect now getR setR key value term)) = []) \<and>
   (\<forall>a \<in> set (writes (snd (elect now getR setR key value term))).
      (\<exists>e. getR = Inl e \<and> IsNotFound e \<and>
           a = ApiSet key value \<lparr>PrevValue = '''', PrevIndex = 0, PrevExist = PrevNoExist, TTL = term\<rparr>) \<or>
      (\<exists>resp. getR = Inr resp \<and> Value (Node resp) = value \<and>
           a = ApiSet key value \<lparr>PrevValue = value, PrevIndex = ModifiedIndex (Node resp),
                                 PrevExist = PrevIgnore, TTL = term\<rparr>)) \<and>
   (\<forall>a \<in> set (writes (snd (voter key value term now getR setR evs))).
      \<exists>opts. a = ApiSet key value opts \<and>
        (PrevExist opts = PrevNoExist \<or> PrevValue opts = value))"
proof -
  have "\<forall>a \<in> set (writes (snd (voter key value term now getR setR evs))).
      \<exists>opts. a = ApiSet key value opts \<and>
        (PrevExist opts = PrevNoExist \<or> PrevValue opts = value)"
    using voter_write_shape[of _ key "value" "term" now getR setR evs] by blast
  moreover have "\<forall>resp. getR = Inr resp \<and> Value (Node resp) \<noteq> value \<longrightarrow>
      writes (snd (elect now getR setR key value term)) = []"
    by (simp add: elect_def writes_def)
  moreover have "\<forall>a \<in> set (writes (snd (elect now getR setR key value term))).
      (\<exists>e. getR = Inl e \<and> IsNotFound e \<and>
           a = ApiSet key value \<lparr>PrevValue = '''', PrevIndex = 0, PrevExist = PrevNoExist, TTL = term\<rparr>) \<or>
      (\<exists>resp. getR = Inr resp \<and> Value (Node resp) = value \<and>
           a = ApiSet key value \<lparr>PrevValue = value, PrevIndex = ModifiedIndex (Node resp),
                                 PrevExist = PrevIgnore, TTL = term\<rparr>)"
    by (auto simp add: elect_def writes_def Let_def split: sum.splits option.splits if_splits)
  ultimately show ?thesis by blast
qed

theorem voter_writes_conditioned_witness:
  "Value (Node \<lparr>Node = \<lparr>Value = ''B'', ModifiedIndex = 7, Expiration = Some Second\<rparr>\<rparr>) \<noteq> ''A'' \<and>
   writes (snd (elect 0 (Inr \<lparr>Node = \<lparr>Value = ''B'', ModifiedIndex = 7, Expiration = Some Second\<rparr>\<rparr>)
       (Inl (OtherError ''unused'')) ''k'' ''A'' (5 * Second))) = [] \<and>
   ApiSet ''k'' ''A'' \<lparr>PrevValue = ''A'', PrevIndex = 5, PrevExist = PrevIgnore, TTL = 5 * Second\<rparr>
     \<in> set (writes (snd (elect 0
         (Inr \<lparr>Node = \<lparr>Value = ''A'', ModifiedIndex = 5, Expiration = Some Second\<rparr>\<rparr>)
         (Inl (OtherError ''down'')) ''k'' ''A'' (5 * Second)))) \<and>
   ApiSet ''k'' ''A'' \<lparr>PrevValue = '''', PrevIndex = 0, PrevExist = PrevNoExist, TTL = 5 * Second\<rparr>
     \<in> set (writes (snd (voter ''k'' ''A'' (5 * Second) 0 (Inl (ClientError ErrorCodeKeyNotFound))
         (Inl (ClientError ErrorCodeNodeExist)) [VClose])))"
  using
    voter_writes_conditioned[of "Inr \<lparr>Node = \<lparr>Value = ''B'', ModifiedIndex = 7, Expiration = Some Second\<rparr>\<rparr>"
      "''A''" 0 "Inl (OtherError ''unused'')" "''k''" "5 * Second" "[]"]
    voter_writes_conditioned[of "Inr \<lparr>Node = \<lparr>Value = ''A'', ModifiedIndex = 5, Expiration = Some Second\<rparr>\<rparr>"
      "''A''" 0 "Inl (OtherError ''down'')" "''k''" "5 * Second" "[]"]
    voter_writes_conditioned[of "Inl (ClientError ErrorCodeKeyNotFound)"
      "''A''" 0 "Inl (ClientError ErrorCodeNodeExist)" "''k''" "5 * Second" "[VClose]"]
  by (simp add: elect_def voter_def writes_def time_Sub_def Second_def signed_divide_int_def)

subsection \<open>The first-value probe\<close>

lemma probe_loop_closed:
  "getFirstValue_loop key (map Inl es @ Inl e # gs) (replicate (length es) Tick @ ProbeClose # ss) =
     (Returns (None, None), gs, ss,
      probe_retries key (es @ [e]) @ [Log ''watcher got client close signal''])"
  by (induction es) simp_all

lemma probe_loop_found:
  "getFirstValue_loop key (map Inl es @ Inr r # gs) (replicate (length es) Tick @ ss) =
     (Returns (Some r, None), gs, ss, probe_retries key es @ [ApiGet key])"
  by (induction es) simp_all

lemma probe_loop_returns:
  "fst (getFirstValue_loop key gs ss) = Returns (ro, eo) \<Longrightarrow>
     eo = None \<and> (case ro of Some r \<Rightarrow> Inr r \<in> set gs | None \<Rightarrow> ProbeClose \<in> set ss)"
  by (induction key gs ss rule: getFirstValue_loop.induct)
     (auto split: prod.splits option.splits)

lemma probe_loop_never_panics: "fst (getFirstValue_loop key gs ss) \<noteq> Panics"
  by (induction key gs ss rule: getFirstValue_loop.induct)
     (auto split: prod.splits)

text \<open>
  C9: with a positive \<open>retryPeriod\<close>, after any number of failed reads, each retried
  on a tick and logged unless it is not-found, \<open>getFirstValue\<close> returns
  (nil, nil) when its \<open>select\<close> takes \<open>closeC\<close>, and the response of the first read that
  succeeds, with a nil error, otherwise. Whenever it returns, the error is nil, a
  response it returns is one a read has given, and a nil response means that
  \<open>closeC\<close> was taken.
\<close>

theorem getFirstValue_contract:
  "(0 < retryPeriod \<longrightarrow>
      getFirstValue key retryPeriod (map Inl es @ Inl e # gs)
          (replicate (length es) Tick @ ProbeClose # ss) =
        (Returns (None, None), gs, ss,
         NewTicker retryPeriod # probe_retries key (es @ [e]) @
           [Log ''watcher got client close signal'']) \<and>
      getFirstValue key retryPeriod (map Inl es @ Inr r # gs) (replicate (length es) Tick @ ss) =
        (Returns (Some r, None), gs, ss,
         NewTicker retryPeriod # probe_retries key es @ [ApiGet key])) \<and>
   (fst (getFirstValue key retryPeriod gs0 ss0) = Returns (ro, eo) \<longrightarrow>
      eo = None \<and> (case ro of Some r' \<Rightarrow> Inr r' \<in> set gs0 | None \<Rightarrow> ProbeClose \<in> set ss0))"
proof -
  have "fst (getFirstValue key retryPeriod gs0 ss0) = Returns (ro, eo) \<Longrightarrow>
      fst (getFirstValue_loop key gs0 ss0) = Returns (ro, eo)"
    by (simp add: getFirstValue_def split: if_splits prod.splits)
  then show ?thesis
    using probe_loop_returns[of key gs0 ss0 ro eo]
    by (simp add: getFirstValue_def probe_loop_closed probe_loop_found)
qed

theorem getFirstValue_contract_witness:
  "0 < Second \<and>
   getFirstValue ''k'' Second [Inl (ClientError ErrorCodeKeyNotFound), Inl (OtherError ''timeout'')]
       [Tick, ProbeClose] =
     (Returns (None, None), [], [],
      [NewTicker Second, ApiGet ''k'', ApiGet ''k'', Log ''unexpected watcher error'',
       Log ''watcher got client close signal'']) \<and>
   getFirstValue ''k'' Second
       [Inl (ClientError ErrorCodeKeyNotFound),
        Inr \<lparr>Node = \<lparr>Value = ''A'', ModifiedIndex = 5, Expiration = None\<rparr>\<rparr>] [Tick] =
     (Returns (Some \<lparr>Node = \<lparr>Value = ''A'', ModifiedIndex = 5, Expiration = None\<rparr>\<rparr>, None), [], [],
      [NewTicker Second, ApiGet ''k'', ApiGet ''k'']) \<and>
   Inr \<lparr>Node = \<lparr>Value = ''A'', ModifiedIndex = 5, Expiration = None\<rparr>\<rparr>
     \<in> set [Inl (ClientError ErrorCodeKeyNotFound),
            Inr \<lparr>Node = \<lparr>Value = ''A'', ModifiedIndex = 5, Expiration = None\<rparr>\<rparr>]"
  using getFirstValue_contract[of Second "''k''" "[ClientError ErrorCodeKeyNotFound]"
      "OtherError ''timeout''" "[]" "[]"
      "\<lparr>Node = \<lparr>Value = ''A'', ModifiedIndex = 5, Expiration = None\<rparr>\<rparr>"
      "[Inl (ClientError ErrorCodeKeyNotFound),
        Inr \<lparr>Node = \<lparr>Value = ''A'', ModifiedIndex = 5, Expiration = None\<rparr>\<rparr>]" "[Tick]"
      "Some \<lparr>Node = \<lparr>Value = ''A'', ModifiedIndex = 5, Expiration = None\<rparr>\<rparr>" None]
  by (simp add: Second_def probe_log_def getFirstValue_def)

subsection \<open>Expected store outcomes\<close>

lemma term_tick_positive: "Second \<le> term \<Longrightarrow> 0 < term sdiv 5"
  by (simp add: Second_def signed_divide_int_def sgn_if pos_imp_zdiv_pos_iff)

lemma voter_first_campaign_refused:
  assumes "IsNotFound e" and "0 < term sdiv 5"
  shows "voter key value term now (Inl e) (Inl e') evs =
       (fst (voter_loop key value term evs),
        [Log ''start'', ApiGet key, Log ''key not found, try to elect myself'',
         ApiSet key value \<lparr>PrevValue = '''', PrevIndex = 0, PrevExist = PrevNoExist, TTL = term\<rparr>,
         Log ''voter error'', NewTicker (term sdiv 5)] @ snd (voter_loop key value term evs))"
  using assms by (simp add: voter_def elect_def split: prod.splits)


text \<open>
  C5, as the claim states it, fails: when the read finds no key and the create of the
  voter's lease is refused with "node exists", \<open>elect\<close> returns that error, wrapped.
\<close>

theorem elect_surfaces_node_exists:
  "IsAlreadyExist (ClientError ErrorCodeNodeExist) \<and>
   fst (elect 0 (Inl (ClientError ErrorCodeKeyNotFound)) (Inl (ClientError ErrorCodeNodeExist))
          ''k'' ''A'' (5 * Second)) =
     Returns (Some (TraceErr (ClientError ErrorCodeNodeExist)))"
  by (simp add: elect_def)

text \<open>
  C5, amended: a not-found answer to the probe's read is retried on the next tick
  without a log line. A create that the store refuses, with "node exists" or any
  other error, makes \<open>elect\<close> return the error wrapped. The voter goroutine logs it as
  a voter error and goes on, after its first campaign (where it then starts the
  ticker) as well as after a campaign on a tick. \<open>AddVoter\<close> with a value and a term
  it accepts has returned nil and started that goroutine, so its caller never sees
  the error.
\<close>

theorem expected_outcomes_retried:
  "IsNotFound e \<longrightarrow>
     getFirstValue_loop key (Inl e # gs) (Tick # ss) =
       (case getFirstValue_loop key gs ss of
          (out, gs', ss', tr) \<Rightarrow> (out, gs', ss', ApiGet key # tr)) \<and>
     elect now (Inl e) (Inl e') key value term =
       (Returns (Some (TraceErr e')),
        [Log ''start'', ApiGet key, Log ''key not found, try to elect myself'',
         ApiSet key value \<lparr>PrevValue = '''', PrevIndex = 0, PrevExist = PrevNoExist, TTL = term\<rparr>]) \<and>
     voter_loop key value term (VTick now (Inl e) (Inl e') # evs) =
       (fst (voter_loop key value term evs),
        [Log ''start'', ApiGet key, Log ''key not found, try to elect myself'',
         ApiSet key value \<lparr>PrevValue = '''', PrevIndex = 0, PrevExist = PrevNoExist, TTL = term\<rparr>,
         Log ''voter error''] @ snd (voter_loop key value term evs)) \<and>
     (0 < term sdiv 5 \<longrightarrow>
        voter key value term now (Inl e) (Inl e') evs =
          (fst (voter_loop key value term evs),
           [Log ''start'', ApiGet key, Log ''key not found, try to elect myself'',
            ApiSet key value \<lparr>PrevValue = '''', PrevIndex = 0, PrevExist = PrevNoExist, TTL = term\<rparr>,
            Log ''voter error'', NewTicker (term sdiv 5)] @ snd (voter_loop key value term evs))) \<and>
     (value \<noteq> '''' \<and> Second \<le> term \<longrightarrow>
        AddVoter key value term = (None, Some (VoterTask key value term)) \<and>
        run_goroutine (VoterTask key value term) now (Inl e) (Inl e') evs =
          (fst (voter_loop key value term evs),
           [Log ''start'', ApiGet key, Log ''key not found, try to elect myself'',
            ApiSet key value \<lparr>PrevValue = '''', PrevIndex = 0, PrevExist = PrevNoExist, TTL = term\<rparr>,
            Log ''voter error'', NewTicker (term sdiv 5)] @ snd (voter_loop key value term evs)))"
proof (intro impI conjI)
  assume nf: "IsNotFound e"
  then show "getFirstValue_loop key (Inl e # gs) (Tick # ss) =
       (case getFirstValue_loop key gs ss of
          (out, gs', ss', tr) \<Rightarrow> (out, gs', ss', ApiGet key # tr))"
    by (simp add: probe_log_def)
  from nf show "elect now (Inl e) (Inl e') key value term =
       (Returns (Some (TraceErr e')),
        [Log ''start'', ApiGet key, Log ''key not found, try to elect myself'',
         ApiSet key value \<lparr>PrevValue = '''', PrevIndex = 0, PrevExist = PrevNoExist, TTL = term\<rparr>])"
    by (simp add: elect_def)
  from nf show "voter_loop key value term (VTick now (Inl e) (Inl e') # evs) =
       (fst (voter_loop key value term evs),
        [Log ''start'', ApiGet key, Log ''key not found, try to elect myself'',
         ApiSet key value \<lparr>PrevValue = '''', PrevIndex = 0, PrevExist = PrevNoExist, TTL = term\<rparr>,
         Log ''voter error''] @ snd (voter_loop key value term evs))"
    by (simp add: elect_def split: prod.splits)
  { assume "0 < term sdiv 5"
    with nf show "voter key value term now (Inl e) (Inl e') evs =
          (fst (voter_loop key value term evs),
           [Log ''start'', ApiGet key, Log ''key not found, try to elect myself'',
            ApiSet key value \<lparr>PrevValue = '''', PrevIndex = 0, PrevExist = PrevNoExist, TTL = term\<rparr>,
            Log ''voter error'', NewTicker (term sdiv 5)] @ snd (voter_loop key value term evs))"
      by (rule voter_first_campaign_refused) }
  { assume a: "value \<noteq> '''' \<and> Second \<le> term"
    then show "AddVoter key value term = (None, Some (VoterTask key value term))"
      by (simp add: AddVoter_def)
    from a have "0 < term sdiv 5" by (simp add: term_tick_positive)
    with nf show "run_goroutine (VoterTask key value term) now (Inl e) (Inl e') evs =
          (fst (voter_loop key value term evs),
           [Log ''start'', ApiGet key, Log ''key not found, try to elect myself'',
            ApiSet key value \<lparr>PrevValue = '''', PrevIndex = 0, PrevExist = PrevNoExist, TTL = term\<rparr>,
            Log ''voter error'', NewTicker (term sdiv 5)] @ snd (voter_loop key value term evs))"
      by (simp add: voter_first_campaign_refused) }
qed

theorem expected_outcomes_retried_witness:
  "IsNotFound (ClientError ErrorCodeKeyNotFound) \<and>
   getFirstValue_loop ''k'' [Inl (ClientError ErrorCodeKeyNotFound),
       Inr \<lparr>Node = \<lparr>Value = ''A'', ModifiedIndex = 5, Expiration = None\<rparr>\<rparr>] [Tick] =
     (Returns (Some \<lparr>Node = \<lparr>Value = ''A'', ModifiedIndex = 5, Expiration = None\<rparr>\<rparr>, None), [], [],
      [ApiGet ''k'', ApiGet ''k'']) \<and>
   voter_loop ''k'' ''A'' (5 * Second)
       [VTick 0 (Inl (ClientError ErrorCodeKeyNotFound)) (Inl (ClientError ErrorCodeNodeExist)), VClose] =
     (Returns (),
      [Log ''start'', ApiGet ''k'', Log ''key not found, try to elect myself'',
       ApiSet ''k'' ''A'' \<lparr>PrevValue = '''', PrevIndex = 0, PrevExist = PrevNoExist, TTL = 5 * Second\<rparr>,
       Log ''voter error'', Log ''client is closing, return'']) \<and>
   0 < (5 * Second) sdiv 5 \<and> ''A'' \<noteq> '''' \<and> Second \<le> 5 * Second \<and>
   voter ''k'' ''A'' (5 * Second) 0 (Inl (ClientError ErrorCodeKeyNotFound))
       (Inl (ClientError ErrorCodeNodeExist)) [VClose] =
     (Returns (),
      [Log ''start'', ApiGet ''k'', Log ''key not found, try to elect myself'',
       ApiSet ''k'' ''A'' \<lparr>PrevValue = '''', PrevIndex = 0, PrevExist = PrevNoExist, TTL = 5 * Second\<rparr>,
       Log ''voter error'', NewTicker Second, Log ''client is closing, return'']) \<and>
   AddVoter ''k'' ''A'' (5 * Second) = (None, Some (VoterTask ''k'' ''A'' (5 * Second))) \<and>
   run_goroutine (VoterTask ''k'' ''A'' (5 * Second)) 0 (Inl (ClientError ErrorCodeKeyNotFound))
       (Inl (ClientError ErrorCodeNodeExist)) [VClose] =
     (Returns (),
      [Log ''start'', ApiGet ''k'', Log ''key not found, try to elect myself'',
       ApiSet ''k'' ''A'' \<lparr>PrevValue = '''', PrevIndex = 0, PrevExist = PrevNoExist, TTL = 5 * Second\<rparr>,
       Log ''voter error'', NewTicker Second, Log ''client is closing, return''])"
proof -
  have nf: "IsNotFound (ClientError ErrorCodeKeyNotFound)" by simp
  have tick: "(5 * Second) sdiv 5 = Second"
    by (simp add: Second_def signed_divide_int_def)
  have pre: "''A'' \<noteq> '''' \<and> Second \<le> 5 * Second" by (simp add: Second_def)
  have vl: "voter_loop ''k'' ''A'' (5 * Second) [VClose] = (Returns (), [Log ''client is closing, return''])"
    by simp
  have pl: "getFirstValue_loop ''k''
      [Inr \<lparr>Node = \<lparr>Value = ''A'', ModifiedIndex = 5, Expiration = None\<rparr>\<rparr>] [] =
      (Returns (Some \<lparr>Node = \<lparr>Value = ''A'', ModifiedIndex = 5, Expiration = None\<rparr>\<rparr>, None), [], [],
       [ApiGet ''k''])"
    by simp
  have pos: "0 < (5 * Second) sdiv 5" by (simp add: tick Second_def)
  from expected_outcomes_retried[of "ClientError ErrorCodeKeyNotFound" "''k''"
      "[Inr \<lparr>Node = \<lparr>Value = ''A'', ModifiedIndex = 5, Expiration = None\<rparr>\<rparr>]" "[]"
      0 "ClientError ErrorCodeNodeExist" "''A''" "5 * Second" "[VClose]"] nf pos pre
  show ?thesis
    by (simp only: vl pl tick fst_conv snd_conv prod.case append.simps) simp
qed

subsection \<open>Close\<close>

lemma count_list_update:
  "i < length xs \<Longrightarrow>
     count_list (xs[i := y]) z + (if xs ! i = z then 1 else 0) =
     count_list xs z + (if y = z then 1 else 0)"
proof (induction xs arbitrary: i)
  case Nil
  then show ?case by simp
next
  case (Cons x xs)
  show ?case
  proof (cases i)
    case 0
    then show ?thesis by simp
  next
    case (Suc k)
    with Cons.IH[of k] Cons.prems show ?thesis by (auto split: if_splits)
  qed
qed

lemma count_list_all_other: "\<forall>c \<in> set xs. c \<noteq> z \<Longrightarrow> count_list xs z = 0"
  by (induction xs) auto

lemma count_list_pos: "i < length xs \<Longrightarrow> xs ! i = z \<Longrightarrow> 0 < count_list xs z"
  by (metis count_list_0_iff nth_mem not_gr_zero)

lemma set_update_cases: "c \<in> set (xs[i := y]) \<Longrightarrow> c = y \<or> c \<in> set xs"
  by (meson in_set_conv_nth insertE set_update_subset_insert subsetD)

lemma start_inv: "close_inv (start n)"
  by (simp add: close_inv_def start_def NewClient_def)

lemma at_close_after_swap:
  assumes inv: "close_inv s" and i: "i < length (calls s)" and ac: "calls s ! i = AtClose"
  shows "closed (client s) = 1 \<and> closings s = 0 \<and> closeC (client s) = ChanOpen \<and>
         count_list (calls s) AtClose = 1"
proof -
  from inv have c01: "closed (client s) = 0 \<or> closed (client s) = 1"
    by (simp add: close_inv_def)
  have one: "closed (client s) = 1"
  proof (rule ccontr)
    assume "closed (client s) \<noteq> 1"
    with c01 have "closed (client s) = 0" by simp
    with inv have "\<forall>c \<in> set (calls s). c = AtCas" by (simp add: close_inv_def)
    with i ac show False by (metis close_call.distinct(1) nth_mem)
  qed
  with inv have cnt0: "count_list (calls s) AtClose + closings s = 1"
    and ch: "(closeC (client s) = ChanClosed) = (closings s = 1)"
    by (simp_all add: close_inv_def)
  from count_list_pos[OF i ac] cnt0 have z: "closings s = 0" and c1: "count_list (calls s) AtClose = 1"
    by simp_all
  with ch have "closeC (client s) = ChanOpen" by (cases "closeC (client s)") simp_all
  with one z c1 show ?thesis by simp
qed

lemma step_call_inv:
  assumes inv: "close_inv s"
  shows "close_inv (step_call i s)"
proof (cases "length (calls s) \<le> i")
  case True
  with inv show ?thesis by (simp add: step_call_def)
next
  case False
  then have i: "i < length (calls s)" by simp
  from inv have np: "\<not> panicked s" by (simp add: close_inv_def)
  from inv have c01: "closed (client s) = 0 \<or> closed (client s) = 1"
    by (simp add: close_inv_def)
  from inv have sh0: "\<forall>c \<in> set (calls s). c = AtCas \<or> c = AtClose \<or> c = Returned None"
    by (simp add: close_inv_def)
  have sh: "\<forall>c \<in> set ((calls s)[i := Returned None]). c = AtCas \<or> c = AtClose \<or> c = Returned None"
    using sh0 set_update_cases by fastforce
  show ?thesis
  proof (cases "calls s ! i")
    case AtCas
    show ?thesis
    proof (cases "closed (client s) = 0")
      case True
      with inv have all: "\<forall>c \<in> set (calls s). c = AtCas" and o: "closeC (client s) = ChanOpen"
        and z: "closings s = 0"
        by (simp_all add: close_inv_def)
      from all have "count_list (calls s) AtClose = 0"
        by (intro count_list_all_other) auto
      with count_list_update[OF i, of AtClose AtClose] AtCas
      have cnt: "count_list ((calls s)[i := AtClose]) AtClose = 1" by simp
      have sh': "\<forall>c \<in> set ((calls s)[i := AtClose]). c = AtCas \<or> c = AtClose \<or> c = Returned None"
        using all set_update_cases by fastforce
      from True AtCas i np cnt sh' o z show ?thesis
        by (simp add: step_call_def close_inv_def CompareAndSwapUint32_def)
    next
      case False
      with c01 have one: "closed (client s) = 1" by simp
      with inv have cnt0: "count_list (calls s) AtClose + closings s = 1"
        and ch: "(closeC (client s) = ChanClosed) = (closings s = 1)"
        by (simp_all add: close_inv_def)
      from count_list_update[OF i, of "Returned None" AtClose] AtCas
      have cnt: "count_list ((calls s)[i := Returned None]) AtClose = count_list (calls s) AtClose"
        by simp
      from one AtCas i np cnt cnt0 ch sh show ?thesis
        by (simp add: step_call_def close_inv_def CompareAndSwapUint32_def)
    qed
  next
    case AtClose
    from at_close_after_swap[OF inv i AtClose]
    have one: "closed (client s) = 1" and z: "closings s = 0"
      and o: "closeC (client s) = ChanOpen" and c1: "count_list (calls s) AtClose = 1"
      by simp_all
    from count_list_update[OF i, of "Returned None" AtClose] AtClose c1
    have cnt: "count_list ((calls s)[i := Returned None]) AtClose = 0" by simp
    from one AtClose i np cnt z o sh show ?thesis
      by (simp add: step_call_def close_inv_def close_chan_def)
  next
    case (Returned r)
    with inv i show ?thesis by (simp add: step_call_def)
  qed
qed

lemma run_inv: "close_inv s \<Longrightarrow> close_inv (run sched s)"
  by (induction sched arbitrary: s) (simp_all add: step_call_inv)

lemma step_call_length: "length (calls (step_call i s)) = length (calls s)"
  by (simp add: step_call_def CompareAndSwapUint32_def close_chan_def
      split: close_call.splits chan.splits)

lemma run_length: "length (calls (run sched s)) = length (calls s)"
  by (induction sched arbitrary: s) (simp_all add: step_call_length)

lemma step_call_other:
  "j \<noteq> i \<Longrightarrow> calls (step_call j s) ! i = calls s ! i"
  by (simp add: step_call_def CompareAndSwapUint32_def close_chan_def
      split: close_call.splits chan.splits)

lemma step_call_rank:
  assumes "close_inv s" and "i < length (calls s)"
  shows "min 2 (Suc (rank (calls s ! i))) \<le> rank (calls (step_call i s) ! i)"
proof (cases "calls s ! i")
  case AtCas
  with assms show ?thesis
    by (simp add: step_call_def close_inv_def CompareAndSwapUint32_def)
next
  case AtClose
  from at_close_after_swap[OF assms AtClose] AtClose assms show ?thesis
    by (simp add: step_call_def close_inv_def close_chan_def)
next
  case (Returned r)
  with assms show ?thesis by (simp add: step_call_def)
qed

lemma run_rank:
  "close_inv s \<Longrightarrow> i < length (calls s) \<Longrightarrow>
     min 2 (rank (calls s ! i) + count_list sched i) \<le> rank (calls (run sched s) ! i)"
proof (induction sched arbitrary: s)
  case Nil
  then show ?case by (cases "calls s ! i") simp_all
next
  case (Cons j sched)
  have inv': "close_inv (step_call j s)" using Cons.prems(1) by (rule step_call_inv)
  have len': "i < length (calls (step_call j s))" using Cons.prems(2) by (simp add: step_call_length)
  show ?case
  proof (cases "j = i")
    case True
    with Cons.IH[OF inv' len'] step_call_rank[OF Cons.prems] show ?thesis by auto
  next
    case False
    with Cons.IH[OF inv' len'] step_call_other[of j i s] show ?thesis by simp
  qed
qed

text \<open>
  C3: let \<open>n\<close> calls of \<open>Close\<close> run on a fresh client, interleaved by any schedule.
  No step panics, so the channel is never closed twice; at most one \<open>close\<close> is
  carried out, and the channel is closed exactly when one has been. Every call that
  has returned has returned nil; a call that has been given its two steps has
  returned; a call has moved only if \<open>closed\<close> is 1; and once all of \<open>n \<ge> 1\<close> calls
  have returned, exactly one \<open>close\<close> has been carried out. Run alone, a \<open>Close\<close> on
  a client whose flag is set returns nil and leaves the client as it is, and the
  first \<open>Close\<close> sets the flag and closes the channel.
\<close>

theorem Close_exactly_once:
  "\<not> panicked (run sched (start n)) \<and>
   closings (run sched (start n)) \<le> 1 \<and>
   (closeC (client (run sched (start n))) = ChanClosed) = (closings (run sched (start n)) = 1) \<and>
   (\<forall>i<n. \<forall>r. calls (run sched (start n)) ! i = Returned r \<longrightarrow> r = None) \<and>
   (\<forall>i<n. 2 \<le> count_list sched i \<longrightarrow> calls (run sched (start n)) ! i = Returned None) \<and>
   (\<forall>i<n. calls (run sched (start n)) ! i \<noteq> AtCas \<longrightarrow> closed (client (run sched (start n))) = 1) \<and>
   (0 < n \<and> (\<forall>i<n. calls (run sched (start n)) ! i = Returned None) \<longrightarrow>
      closings (run sched (start n)) = 1 \<and> closeC (client (run sched (start n))) = ChanClosed) \<and>
   (closed l \<noteq> 0 \<longrightarrow> Close l = Returns (None, l)) \<and>
   Close NewClient = Returns (None, \<lparr>closeC = ChanClosed, closed = 1\<rparr>)"
proof -
  define s where "s = run sched (start n)"
  have inv: "close_inv s" unfolding s_def by (rule run_inv[OF start_inv])
  have len: "length (calls s) = n" unfolding s_def by (simp add: run_length start_def)
  have np: "\<not> panicked s" using inv by (simp add: close_inv_def)
  have c01: "closed (client s) = 0 \<or> closed (client s) = 1" using inv by (simp add: close_inv_def)
  have shape: "\<And>i. i < n \<Longrightarrow> calls s ! i = AtCas \<or> calls s ! i = AtClose \<or> calls s ! i = Returned None"
    using inv len by (simp add: close_inv_def)
  have le1: "closings s \<le> 1"
    using inv c01 by (auto simp add: close_inv_def)
  have ch: "(closeC (client s) = ChanClosed) = (closings s = 1)"
    using inv c01 by (auto simp add: close_inv_def)
  have ret: "\<forall>i<n. \<forall>r. calls s ! i = Returned r \<longrightarrow> r = None"
    using shape by fastforce
  have twice: "\<forall>i<n. 2 \<le> count_list sched i \<longrightarrow> calls s ! i = Returned None"
  proof (intro allI impI)
    fix i assume i: "i < n" and two: "2 \<le> count_list sched i"
    have "min 2 (rank (calls (start n) ! i) + count_list sched i) \<le> rank (calls s ! i)"
      unfolding s_def using i by (intro run_rank[OF start_inv]) (simp add: start_def)
    with two have "2 \<le> rank (calls s ! i)" by simp
    with shape[OF i] show "calls s ! i = Returned None" by auto
  qed
  have moved: "\<forall>i<n. calls s ! i \<noteq> AtCas \<longrightarrow> closed (client s) = 1"
  proof (intro allI impI)
    fix i assume i: "i < n" and m: "calls s ! i \<noteq> AtCas"
    show "closed (client s) = 1"
    proof (rule ccontr)
      assume "closed (client s) \<noteq> 1"
      with c01 have "closed (client s) = 0" by simp
      with inv have "\<forall>c \<in> set (calls s). c = AtCas" by (simp add: close_inv_def)
      with i len m show False by simp
    qed
  qed
  have all: "0 < n \<and> (\<forall>i<n. calls s ! i = Returned None) \<longrightarrow>
      closings s = 1 \<and> closeC (client s) = ChanClosed"
  proof (intro impI)
    assume a: "0 < n \<and> (\<forall>i<n. calls s ! i = Returned None)"
    then have "calls s ! 0 \<noteq> AtCas" by simp
    with moved a have one: "closed (client s) = 1" by blast
    from a len have "\<forall>c \<in> set (calls s). c \<noteq> AtClose"
      by (metis close_call.distinct(5) in_set_conv_nth)
    then have "count_list (calls s) AtClose = 0" by (rule count_list_all_other)
    with inv one have "closings s = 1" by (simp add: close_inv_def)
    with ch show "closings s = 1 \<and> closeC (client s) = ChanClosed" by simp
  qed
  have seq1: "closed l \<noteq> 0 \<longrightarrow> Close l = Returns (None, l)"
    by (simp add: Close_def CompareAndSwapUint32_def)
  have seq2: "Close NewClient = Returns (None, \<lparr>closeC = ChanClosed, closed = 1\<rparr>)"
    by (simp add: Close_def CompareAndSwapUint32_def NewClient_def close_chan_def)
  from np le1 ch ret twice moved all seq1 seq2 show ?thesis unfolding s_def by blast
qed

theorem Close_exactly_once_witness:
  "(0::nat) < 3 \<and> 2 \<le> count_list [0, 1, 1, 2, 0, 2] (1::nat) \<and>
   calls (run [0, 1, 1, 2, 0, 2] (start 3)) ! 1 = Returned None \<and>
   calls (run [0, 1, 1, 2, 0, 2] (start 3)) ! 0 \<noteq> AtCas \<and>
   calls (run [0, 1, 1, 2, 0, 2] (start 3)) ! 0 = Returned None \<and>
   calls (run [0, 1, 1, 2, 0, 2] (start 3)) ! 2 = Returned None \<and>
   closings (run [0, 1, 1, 2, 0, 2] (start 3)) = 1 \<and>
   closeC (client (run [0, 1, 1, 2, 0, 2] (start 3))) = ChanClosed \<and>
   closed (client (run [0, 1, 1, 2, 0, 2] (start 3))) = 1 \<and>
   closed \<lparr>closeC = ChanClosed, closed = 1\<rparr> \<noteq> 0 \<and>
   Close \<lparr>closeC = ChanClosed, closed = 1\<rparr> = Returns (None, \<lparr>closeC = ChanClosed, closed = 1\<rparr>)"
proof -
  have r: "run [0, 1, 1, 2, 0, 2] (start 3) =
      \<lparr>client = \<lparr>closeC = ChanClosed, closed = 1\<rparr>,
       calls = [Returned None, Returned None, Returned None], closings = 1, panicked = False\<rparr>"
    by (simp add: start_def NewClient_def step_call_def CompareAndSwapUint32_def close_chan_def
        numeral_3_eq_3)
  have a: "\<forall>i<3. [Returned None, Returned None, Returned None] ! i = Returned None"
    by (auto simp add: less_Suc_eq numeral_3_eq_3)
  show ?thesis
    using Close_exactly_once[of "[0, 1, 1, 2, 0, 2]" 3 "\<lparr>closeC = ChanClosed, closed = 1\<rparr>"] r a
    by simp
qed

subsection \<open>The watcher loop\<close>

text \<open>
  What holds of the loop on the way to the claims: the probe and \<open>resetWatch\<close> send
  nothing, so nothing is sent before the first answer of \<open>watcher.Next\<close>; an empty
  value from \<open>watcher.Next\<close> is skipped and a value sent for an event is that event's
  and not empty; after \<open>EventIndexCleared\<close> a probe that returns a snapshot makes the
  watch anew and the snapshot's value is sent.
\<close>

lemma emitted_append: "emitted (tr @ tr') = emitted tr @ emitted tr'"
  by (induction tr rule: emitted.induct) simp_all

lemma emitted_probe_log: "emitted (probe_log e) = []"
  by (simp add: probe_log_def)

lemma probe_loop_sends_nothing:
  "emitted (snd (snd (snd (getFirstValue_loop key gs ss)))) = []"
  by (induction key gs ss rule: getFirstValue_loop.induct)
     (auto simp add: emitted_append emitted_probe_log split: prod.splits)

lemma resetWatch_sends_nothing:
  "emitted (snd (snd (snd (resetWatch key retry st w)))) = []"
proof -
  obtain out gs ss tr where p: "getFirstValue_loop key (gets w) (selects w) = (out, gs, ss, tr)"
    by (cases "getFirstValue_loop key (gets w) (selects w)")
  with probe_loop_sends_nothing[of key "gets w" "selects w"] have "emitted tr = []" by simp
  with p show ?thesis
    by (simp add: resetWatch_def getFirstValue_def emitted_append Let_def
        split: outcome.splits option.splits prod.splits)
qed

lemma AddWatch_sends_nothing_before_next:
  "emitted (snd (AddWatch key retry w [])) = []"
proof -
  obtain out st w' tr where r: "resetWatch key retry
      \<lparr>watcher = None, re = None, err = None,
       backoff = \<lparr>Initial = 50 * Millisecond, Max = 10 * Second, Tries = 0\<rparr>\<rparr> w = (out, st, w', tr)"
    by (metis prod_cases4)
  with resetWatch_sends_nothing[of key retry
      "\<lparr>watcher = None, re = None, err = None,
        backoff = \<lparr>Initial = 50 * Millisecond, Max = 10 * Second, Tries = 0\<rparr>\<rparr>" w]
  have "emitted tr = []" by simp
  with r show ?thesis
    by (simp add: AddWatch_def emitted_append split: outcome.splits option.splits)
qed


lemma iteration_event_sends_nonempty:
  "v \<in> set (emitted (snd (iteration key retry st w (Inr r)))) \<Longrightarrow> v = Value (Node r) \<and> v \<noteq> ''''"
  by (auto simp add: iteration_def emit_def Let_def split: if_splits list.splits send_select.splits)

lemma iteration_index_cleared_resnapshot:
  assumes "0 < retry" and "gets w = map Inl es @ Inr r # gs"
    and "selects w = replicate (length es) Tick @ ss" and "sends w = Sent # sn"
  shows "iteration key retry st w (Inl (ClientError ErrorCodeEventIndexCleared)) =
     (Continue (st\<lparr>re := Some r, err := None, backoff := snd (Delay (backoff st)),
                  watcher := Some (ModifiedIndex (Node r))\<rparr>)
        (w\<lparr>gets := gs, selects := ss, sends := sn\<rparr>),
      (if Tries (backoff st) > 0 then [Log ''backing off'', Sleep (fst (Delay (backoff st)))] else []) @
      [Log ''watch index error, resetting watch index'', NewTicker retry] @ probe_retries key es @
      [ApiGet key, Log ''got current value'', ApiWatcher key (ModifiedIndex (Node r)),
       Log ''reset watch'', Send (Value (Node r))])"
  using assms
  by (simp add: iteration_def resetWatch_def getFirstValue_def probe_loop_found emit_def Delay_def)

text \<open>
  C1: a watcher started while the key holds \<open>v0\<close> should send \<open>v0\<close> first. The code
  does not: the snapshot read by the probe only seeds the watch, the loop overwrites it
  with the first answer of \<open>watcher.Next\<close>, and that is the first value sent. With the
  key at \<open>''A''\<close> (index 5) and a later change to \<open>''B''\<close>, the run sends \<open>''B''\<close>
  and never \<open>''A''\<close>.
\<close>

theorem AddWatch_first_emission:
  "snd (AddWatch ''k'' Second
     \<lparr>gets = [Inr \<lparr>Node = \<lparr>Value = ''A'', ModifiedIndex = 5, Expiration = None\<rparr>\<rparr>],
      selects = [], sends = [Sent]\<rparr>
     [Inr \<lparr>Node = \<lparr>Value = ''B'', ModifiedIndex = 6, Expiration = None\<rparr>\<rparr>]) =
   [NewTicker Second, ApiGet ''k'', Log ''got current value'', ApiWatcher ''k'' 5,
    Log ''reset watch'', WatcherNext 5, Log ''got'', Send ''B'', WatcherNext 5] \<and>
   emitted (snd (AddWatch ''k'' Second
     \<lparr>gets = [Inr \<lparr>Node = \<lparr>Value = ''A'', ModifiedIndex = 5, Expiration = None\<rparr>\<rparr>],
      selects = [], sends = [Sent]\<rparr>
     [Inr \<lparr>Node = \<lparr>Value = ''B'', ModifiedIndex = 6, Expiration = None\<rparr>\<rparr>])) = [''B'']"
  by (simp add: AddWatch_def resetWatch_def getFirstValue_def iteration_def emit_def Reset_def
      Second_def)

text \<open>
  C8: a watcher should never send the empty string. The code skips an empty value only
  when it comes from \<open>watcher.Next\<close>: after an \<open>EventIndexCleared\<close> error the value of
  the new snapshot is sent as it is, and a key that holds the empty string makes the
  run send it.
\<close>

theorem AddWatch_emits_empty_snapshot:
  "emitted (snd (AddWatch ''k'' Second
     \<lparr>gets = [Inr \<lparr>Node = \<lparr>Value = ''A'', ModifiedIndex = 5, Expiration = None\<rparr>\<rparr>,
              Inr \<lparr>Node = \<lparr>Value = '''', ModifiedIndex = 9, Expiration = None\<rparr>\<rparr>],
      selects = [], sends = [Sent]\<rparr>
     [Inl (ClientError ErrorCodeEventIndexCleared)])) = ['''']"
  by (simp add: AddWatch_def resetWatch_def getFirstValue_def iteration_def emit_def Reset_def
      Delay_def Second_def)

text \<open>
  C10: after an \<open>EventIndexCleared\<close> error a re-snapshot that does not succeed should
  send nothing and let the loop go on. In the code the only way for the probe to
  come back without a snapshot is the close signal; \<open>resetWatch\<close> then returns the nil
  error of the probe, the loop does not \<open>continue\<close>, and the \<open>select\<close> reads
  \<open>re.Node.Value\<close> of a nil \<open>re\<close>: the goroutine panics and the answer of
  \<open>watcher.Next\<close> that follows is never asked for.
\<close>

theorem AddWatch_close_during_reset_panics:
  "AddWatch ''k'' Second
     \<lparr>gets = [Inr \<lparr>Node = \<lparr>Value = ''A'', ModifiedIndex = 5, Expiration = None\<rparr>\<rparr>,
              Inl (ClientError ErrorCodeKeyNotFound)],
      selects = [ProbeClose], sends = [Sent]\<rparr>
     [Inl (ClientError ErrorCodeEventIndexCleared), Inl ContextCanceled] =
   (Panics,
    [NewTicker Second, ApiGet ''k'', Log ''got current value'', ApiWatcher ''k'' 5,
     Log ''reset watch'', WatcherNext 5, Log ''watch index error, resetting watch index'',
     NewTicker Second, ApiGet ''k'', Log ''watcher got client close signal'',
     Log ''client is closing, return''])"
  by (simp add: AddWatch_def resetWatch_def getFirstValue_def iteration_def emit_def Reset_def
      Delay_def Second_def probe_log_def)
















end
